theory Spec2Isabelle
  imports Complex_Main "HOL-Library.Sublist" "HOL-Library.Stream" "HOL-Library.AList"
begin

section \<open>Exceptions\<close>

text \<open>
  The Python exceptions that the modelled code raises or catches. \<open>APIError\<close> and
  \<open>ValueError\<close> stand for these classes and their subclasses (\<open>JSONDecodeError\<close>, a
  subclass of \<open>ValueError\<close>, apart); \<open>OtherError n\<close> is an exception of any other subclass
  of \<open>Exception\<close>, with the name \<open>n\<close> of its type.
\<close>

datatype exn = APIError | JSONDecodeError | ValueError | IndexError | KeyError | OtherError string

section \<open>Voice activity detection (vad.py)\<close>

text \<open>
  A frame is a numpy array: either of dtype \<open>int16\<close> or of a floating dtype. Samples of
  the latter are modelled as reals.
\<close>

datatype audio = PCM16 "int list" | Floats "real list"

text \<open>
  The WebRTC classifier is an external object: a function of the bytes of a chunk and the
  sample rate that answers speech, non-speech, or raises.
\<close>

datatype cls_result = Speech | NonSpeech | ClsRaises

type_synonym classifier = "int list \<Rightarrow> int \<Rightarrow> cls_result"

record detector =
  sample_rate :: int
  is_speaking :: bool
  speech_buffer :: "bool list"
  frame_duration :: int
  samples_per_frame :: int
  vad :: bool

text \<open>\<open>__init__\<close>; \<open>avail\<close> says whether the classifier could be constructed.\<close>

definition init_detector :: "int \<Rightarrow> bool \<Rightarrow> detector" where
  "init_detector sr avail =
     \<lparr>sample_rate = sr, is_speaking = False, speech_buffer = [],
      frame_duration = 30, samples_per_frame = (sr * 30) div 1000, vad = avail\<rparr>"

text \<open>
  \<open>astype(np.int16)\<close>: truncation towards zero, then the 16-bit two's complement value.
  The product \<open>audio_data * 32767\<close> is taken over the reals, where the code rounds it to
  a float. Samples in \<open>[-1, 1]\<close> stay within the 16-bit range; beyond it the cast of
  numpy depends on the platform, and the model wraps.
\<close>

definition trunc0 :: "real \<Rightarrow> int" where
  "trunc0 x = (if 0 \<le> x then \<lfloor>x\<rfloor> else \<lceil>x\<rceil>)"

definition wrap16 :: "int \<Rightarrow> int" where
  "wrap16 i = (i + 32768) mod 65536 - 32768"

definition to_int16 :: "audio \<Rightarrow> int list" where
  "to_int16 a = (case a of PCM16 xs \<Rightarrow> xs
                 | Floats fs \<Rightarrow> map (\<lambda>x. wrap16 (trunc0 (x * 32767))) fs)"

text \<open>\<open>np.mean(np.abs(audio_data)) > 0.01\<close>; the mean of an empty array is nan, which
  compares false.\<close>

definition energy :: "int list \<Rightarrow> real" where
  "energy xs = real_of_int (sum_list (map (\<lambda>x. wrap16 \<bar>x\<bar>) xs)) / real (length xs)"

definition energy_detect :: "int list \<Rightarrow> bool" where
  "energy_detect xs = (if xs = [] then False else energy xs > 1 / 100)"

text \<open>The chunks \<open>audio_data[i:i + spf]\<close> for \<open>i\<close> in \<open>range(0, len, spf)\<close>, \<open>spf > 0\<close>.\<close>

definition chunks :: "nat \<Rightarrow> int list \<Rightarrow> int list list" where
  "chunks spf xs = map (\<lambda>k. take spf (drop (k * spf) xs)) [0 ..< (length xs + spf - 1) div spf]"

datatype scan = Detected | Undetected | Failed

fun classify_chunks :: "classifier \<Rightarrow> int \<Rightarrow> nat \<Rightarrow> int list list \<Rightarrow> scan" where
  "classify_chunks cls sr spf [] = Undetected"
| "classify_chunks cls sr spf (f # fs) =
     (if length f < spf then classify_chunks cls sr spf fs
      else case cls f sr of
             Speech \<Rightarrow> Detected
           | NonSpeech \<Rightarrow> classify_chunks cls sr spf fs
           | ClsRaises \<Rightarrow> Failed)"

text \<open>
  The first half of \<open>process_audio\<close>: the raw decision for one frame, and the detector with
  the classifier dropped when it raised. \<open>range\<close> with step 0 raises \<open>ValueError\<close>; with a
  negative step it is empty.
\<close>

definition raw_decision :: "classifier \<Rightarrow> detector \<Rightarrow> audio \<Rightarrow> exn + (bool \<times> detector)" where
  "raw_decision cls d a =
     (let xs = to_int16 a in
      if vad d then
        (if samples_per_frame d = 0 then Inl ValueError
         else if samples_per_frame d < 0 then Inr (False, d)
         else case classify_chunks cls (sample_rate d) (nat (samples_per_frame d))
                     (chunks (nat (samples_per_frame d)) xs) of
                Detected \<Rightarrow> Inr (True, d)
              | Undetected \<Rightarrow> Inr (False, d)
              | Failed \<Rightarrow> Inr (False, d\<lparr>vad := False\<rparr>))
      else Inr (energy_detect xs, d))"

text \<open>The second half: the rolling buffer of raw decisions and the smoothed state.\<close>

definition last3 :: "bool list \<Rightarrow> bool list" where
  "last3 b = drop (length b - 3) b"

definition update_speech_state :: "bool \<Rightarrow> detector \<Rightarrow> detector" where
  "update_speech_state is_speech_detected d =
     (if is_speech_detected then
        (let b = speech_buffer d @ [True] in
         if length b > 3 then d\<lparr>is_speaking := True, speech_buffer := last3 b\<rparr>
         else d\<lparr>speech_buffer := b\<rparr>)
      else
        (let b = speech_buffer d @ [False] in
         if length b > 5 then
           (if \<not> list_ex id (last3 b) then d\<lparr>is_speaking := False, speech_buffer := []\<rparr>
            else d\<lparr>speech_buffer := b\<rparr>)
         else d\<lparr>speech_buffer := b\<rparr>))"

definition process_audio :: "classifier \<Rightarrow> detector \<Rightarrow> audio \<Rightarrow> exn + detector" where
  "process_audio cls d a =
     (case raw_decision cls d a of
        Inl e \<Rightarrow> Inl e
      | Inr (r, d') \<Rightarrow> Inr (update_speech_state r d'))"

text \<open>A detector fed a sequence of raw decisions, and a detector fed a sequence of frames
  (a call that raises leaves the detector as it was).\<close>

definition feed :: "bool list \<Rightarrow> detector \<Rightarrow> detector" where
  "feed rs d = foldl (\<lambda>s r. update_speech_state r s) d rs"

definition after_call :: "classifier \<Rightarrow> detector \<Rightarrow> audio \<Rightarrow> detector" where
  "after_call cls d a = (case process_audio cls d a of Inl e \<Rightarrow> d | Inr d' \<Rightarrow> d')"

definition run_frames :: "classifier \<Rightarrow> detector \<Rightarrow> audio list \<Rightarrow> detector" where
  "run_frames cls d fs = foldl (after_call cls) d fs"

section \<open>Python string operations\<close>

text \<open>
  Text is a list of characters with code points below 256. \<open>isspace\<close> holds of the
  characters that \<open>str.isspace\<close> accepts in that range; \<open>str.lower\<close> and \<open>str.upper\<close> are
  modelled on the ASCII letters, the only letters that occur in the phrases and word lists
  of the program.
\<close>

definition whitespace :: "char list" where
  "whitespace = [CHR 0x09, CHR 0x0A, CHR 0x0B, CHR 0x0C, CHR 0x0D, CHR 0x1C, CHR 0x1D,
                 CHR 0x1E, CHR 0x1F, CHR 0x20, CHR 0x85, CHR 0xA0]"

definition isspace :: "char \<Rightarrow> bool" where
  "isspace c = (c \<in> set whitespace)"

definition lower_char :: "char \<Rightarrow> char" where
  "lower_char c =
     (case map_of (zip ''ABCDEFGHIJKLMNOPQRSTUVWXYZ'' ''abcdefghijklmnopqrstuvwxyz'') c of
        None \<Rightarrow> c | Some l \<Rightarrow> l)"

definition upper_char :: "char \<Rightarrow> char" where
  "upper_char c =
     (case map_of (zip ''abcdefghijklmnopqrstuvwxyz'' ''ABCDEFGHIJKLMNOPQRSTUVWXYZ'') c of
        None \<Rightarrow> c | Some u \<Rightarrow> u)"

definition py_lower :: "string \<Rightarrow> string" where
  "py_lower s = map lower_char s"

definition capitalize :: "string \<Rightarrow> string" where
  "capitalize s = (case s of [] \<Rightarrow> [] | c # cs \<Rightarrow> upper_char c # map lower_char cs)"

text \<open>\<open>s.strip()\<close> and \<open>s.rstrip(chars)\<close>.\<close>

definition py_strip :: "string \<Rightarrow> string" where
  "py_strip s = rev (dropWhile isspace (rev (dropWhile isspace s)))"

definition py_rstrip :: "string \<Rightarrow> string \<Rightarrow> string" where
  "py_rstrip chars s = rev (dropWhile (\<lambda>c. c \<in> set chars) (rev s))"

text \<open>\<open>s.split()\<close>: the maximal runs of non-whitespace characters; \<open>cur\<close> is the run being
  read.\<close>

fun split_run :: "string \<Rightarrow> string \<Rightarrow> string list" where
  "split_run cur [] = (if cur = [] then [] else [cur])"
| "split_run cur (c # cs) =
     (if isspace c then (if cur = [] then split_run [] cs else cur # split_run [] cs)
      else split_run (cur @ [c]) cs)"

definition py_split :: "string \<Rightarrow> string list" where
  "py_split s = split_run [] s"

text \<open>
  \<open>s.split(sep, 1)\<close> for a non-empty \<open>sep\<close>: \<open>None\<close> when \<open>sep\<close> does not occur (the list
  has the single element \<open>s\<close>), otherwise the text before and after its first occurrence.
  \<open>sep in s\<close> is \<open>contains sep s\<close>.
\<close>

fun split_once :: "string \<Rightarrow> string \<Rightarrow> (string \<times> string) option" where
  "split_once sep [] = (if sep = [] then Some ([], []) else None)"
| "split_once sep (c # cs) =
     (if prefix sep (c # cs) then Some ([], drop (length sep) (c # cs))
      else case split_once sep cs of
             None \<Rightarrow> None
           | Some (a, b) \<Rightarrow> Some (c # a, b))"

definition contains :: "string \<Rightarrow> string \<Rightarrow> bool" where
  "contains sep s = (split_once sep s \<noteq> None)"

text \<open>\<open>xs[k:]\<close>, for a negative \<open>k\<close> counted from the end.\<close>

definition slice_from :: "int \<Rightarrow> 'a list \<Rightarrow> 'a list" where
  "slice_from k xs =
     (if k < 0 then drop (nat (max 0 (int (length xs) + k))) xs else drop (nat k) xs)"

section \<open>The random module\<close>

text \<open>
  The state of the generator is the stream of the floats that \<open>random.random()\<close> will
  return and the stream of the numbers from which \<open>random.choice\<close> takes its index.
\<close>

record rng =
  floats :: "real stream"
  picks :: "nat stream"

definition random_random :: "rng \<Rightarrow> real \<times> rng" where
  "random_random g = (shd (floats g), g\<lparr>floats := stl (floats g)\<rparr>)"

definition random_choice :: "'a list \<Rightarrow> rng \<Rightarrow> (exn + 'a) \<times> rng" where
  "random_choice xs g =
     (if xs = [] then (Inl IndexError, g)
      else (Inr (xs ! (shd (picks g) mod length xs)), g\<lparr>picks := stl (picks g)\<rparr>))"

section \<open>The humanizer (ai_brain.py, audio_utils.py)\<close>

text \<open>\<open>HUMAN_TRAITS\<close> as audio_utils.py defines it: a dictionary with the one key
  \<open>EMOTIONS\<close>.\<close>

definition HUMAN_TRAITS :: "(string \<times> string list) list" where
  "HUMAN_TRAITS = [(''EMOTIONS'',
     [''angry'', ''disust'', ''fear'', ''joy'', ''sadness'', ''surprise'', ''neutral''])]"

definition traits :: "string \<Rightarrow> exn + string list" where
  "traits k = (case map_of HUMAN_TRAITS k of None \<Rightarrow> Inl KeyError | Some v \<Rightarrow> Inr v)"

definition get_random_emotion :: "string \<Rightarrow> rng \<Rightarrow> (exn + string) \<times> rng" where
  "get_random_emotion emotion_type g =
     (case traits ''EMOTIONS'' of
        Inl e \<Rightarrow> (Inl e, g)
      | Inr emotions \<Rightarrow>
          if emotion_type \<in> set emotions then (Inr emotion_type, g)
          else random_choice emotions g)"

text \<open>Sequencing of steps that may raise and that advance the generator.\<close>

definition then_do ::
  "(exn + 'a) \<times> rng \<Rightarrow> ('a \<Rightarrow> rng \<Rightarrow> (exn + 'b) \<times> rng) \<Rightarrow> (exn + 'b) \<times> rng" where
  "then_do r f = (case r of (Inl e, g) \<Rightarrow> (Inl e, g) | (Inr x, g) \<Rightarrow> f x g)"

text \<open>
  The four decorations of \<open>humanize_text\<close>, in the order of the source. They run on a text
  that is not blank, so \<open>text[0]\<close> exists. In a condition \<open>random.random() < p and ...\<close>
  the float is drawn first.
\<close>

definition add_filler :: "string \<Rightarrow> rng \<Rightarrow> (exn + string) \<times> rng" where
  "add_filler text g =
     (let (r, g1) = random_random g in
      if r < 1 / 10 then
        then_do (traits ''fillers'', g1) (\<lambda>fillers g2.
        then_do (random_choice fillers g2) (\<lambda>filler g3.
          (Inr (capitalize filler @ '', '' @ lower_char (hd text) # tl text), g3)))
      else (Inr text, g1))"

definition add_thinking :: "string \<Rightarrow> rng \<Rightarrow> (exn + string) \<times> rng" where
  "add_thinking text g =
     (let (r, g1) = random_random g in
      if r < 5 / 100 \<and> length (py_split text) > 5 then
        then_do (traits ''thinking_phrases'', g1) (\<lambda>phrases g2.
        then_do (random_choice phrases g2) (\<lambda>thinking g3.
          (Inr (thinking @ '' '' @ text), g3)))
      else (Inr text, g1))"

definition add_acknowledgment :: "string \<Rightarrow> rng \<Rightarrow> (exn + string) \<times> rng" where
  "add_acknowledgment text g =
     (let (r, g1) = random_random g in
      if r < 5 / 100 \<and> length (py_split text) > 8 then
        then_do (traits ''acknowledgments'', g1) (\<lambda>acks g2.
        then_do (random_choice acks g2) (\<lambda>ack g3.
          (Inr (text @ '' '' @ py_lower ack @ ''.''), g3)))
      else (Inr text, g1))"

definition add_emotion :: "string \<Rightarrow> string \<Rightarrow> rng \<Rightarrow> (exn + string) \<times> rng" where
  "add_emotion emotion text g =
     (let (r, g1) = random_random g in
      if r < 2 / 10 then
        then_do (get_random_emotion emotion g1) (\<lambda>emoji g2.
          (Inr (if emoji \<noteq> [] then text @ '' '' @ emoji else text), g2))
      else (Inr text, g1))"

definition humanize_text :: "string \<Rightarrow> string \<Rightarrow> rng \<Rightarrow> (exn + string) \<times> rng" where
  "humanize_text text emotion g =
     (if py_strip text = [] then (Inr text, g)
      else
        then_do (add_filler text g) (\<lambda>t1 g1.
        then_do (add_thinking t1 g1) (\<lambda>t2 g2.
        then_do (add_acknowledgment t2 g2) (\<lambda>t3 g3.
          add_emotion emotion t3 g3))))"

section \<open>The conversation manager (ai_brain.py)\<close>

text \<open>
  A message is a dictionary. The system message has the keys \<open>role\<close> and \<open>content\<close> only;
  the messages that \<open>add_message\<close> appends also have \<open>timestamp\<close> and \<open>emotion\<close>. Time is
  counted in microseconds, the resolution of \<open>datetime\<close>.
\<close>

record message =
  role :: string
  content :: string
  timestamp :: "int option"
  emotion :: "string option"

record manager =
  max_history :: int
  conversation_history :: "message list"
  last_interaction_time :: int
  user_name :: string
  conversation_topics :: "string list"
  user_preferences :: "(string \<times> string) list"
  conversation_mood :: string

definition system_message :: message where
  "system_message =
     \<lparr>role = ''system'',
      content =
        ''You are Anglo, a personal assistant voice AI representing Edward Asimeng. '' @
        ''You are calm, confident, and professional with a Neutral Ghanaian/African English accent. '' @
        ''You are intelligent but humble, helpful and respectful, clear and confident, patient and explanatory. '' @
        ''You assist with daily tasks, planning, technical explanations, and general questions. '' @
        ''Always be polite, helpful, and honest. If unsure, say you do not know and ask for clarification. '' @
        ''Avoid offensive, illegal, or harmful content. '' @
        ''When explaining technical topics, start simple and go deeper if the user asks. '' @
        ''Use the following format for your responses: '' @ [CHR 0x0A] @
        ''[THOUGHTS: Your internal monologue about the conversation]'' @ [CHR 0x0A] @
        ''[RESPONSE: Your actual response to the user]'',
      timestamp = None, emotion = None\<rparr>"

text \<open>
  The persisted history file: absent, present but not loadable (the \<open>except\<close> branch of
  \<open>_initialize_conversation\<close>), or holding a list of messages as \<open>save_conversation\<close>
  writes it. Writing a list of messages as JSON and reading it back gives the same list.
\<close>

datatype history_file = Absent | Unreadable | Saved "message list"

definition initialize_conversation :: "int \<Rightarrow> history_file \<Rightarrow> message list" where
  "initialize_conversation mh f =
     [system_message] @
     (case f of Saved saved_history \<Rightarrow> slice_from (- (mh * 2)) saved_history | _ \<Rightarrow> [])"

definition new_manager :: "int \<Rightarrow> history_file \<Rightarrow> int \<Rightarrow> manager" where
  "new_manager mh f now =
     \<lparr>max_history = mh, conversation_history = initialize_conversation mh f,
      last_interaction_time = now, user_name = ''User'', conversation_topics = [],
      user_preferences = [], conversation_mood = ''neutral''\<rparr>"

text \<open>
  \<open>save_conversation\<close>: the write succeeds, or \<open>open\<close> fails and the file stays as it was,
  or \<open>json.dump\<close> fails after the file was truncated. Every failure is caught.
\<close>

datatype write_outcome = Written | OpenFails | DumpFails

definition save_conversation :: "write_outcome \<Rightarrow> manager \<Rightarrow> history_file \<Rightarrow> history_file" where
  "save_conversation w m f =
     (case w of
        Written \<Rightarrow> Saved (drop 1 (conversation_history m))
      | OpenFails \<Rightarrow> f
      | DumpFails \<Rightarrow> Unreadable)"

datatype outcome = Returns | Raises exn

definition hour :: int where
  "hour = 3600000000"

text \<open>\<open>content.split('my name is ', 1)[1].split()[0].rstrip('.,!?')\<close>\<close>

definition name_part :: "string \<Rightarrow> exn + string" where
  "name_part c =
     (case split_once ''my name is '' c of
        None \<Rightarrow> Inl IndexError
      | Some (before, after) \<Rightarrow>
          (case py_split after of
             [] \<Rightarrow> Inl IndexError
           | tok # rest \<Rightarrow> Inr (py_rstrip ''.,!?'' tok)))"

definition update_conversation_meta :: "string \<Rightarrow> string \<Rightarrow> int \<Rightarrow> manager \<Rightarrow> outcome \<times> manager" where
  "update_conversation_meta c r now m =
     (let time_since_last = now - last_interaction_time m;
          m1 = m\<lparr>last_interaction_time := now\<rparr>;
          m2 = (if time_since_last > hour then m1\<lparr>conversation_mood := ''warm''\<rparr> else m1)
      in if r = ''user'' \<and> contains ''my name is '' (py_lower c) then
           (case name_part c of
              Inl e \<Rightarrow> (Raises e, m2)
            | Inr n \<Rightarrow>
                if n \<noteq> [] \<and> length n > 1
                then (Returns, m2\<lparr>user_name := n,
                                   user_preferences := AList.update ''name'' n (user_preferences m2)\<rparr>)
                else (Returns, m2))
         else (Returns, m2))"

text \<open>\<open>emotion or self.conversation_mood\<close>\<close>

definition emotion_or :: "string option \<Rightarrow> string \<Rightarrow> string" where
  "emotion_or e mood = (case e of None \<Rightarrow> mood | Some x \<Rightarrow> if x = [] then mood else x)"

definition truncate_history :: "manager \<Rightarrow> manager" where
  "truncate_history m =
     (if int (length (conversation_history m)) > max_history m * 2 + 1
      then m\<lparr>conversation_history :=
                [hd (conversation_history m)] @
                slice_from (- (max_history m * 2)) (conversation_history m)\<rparr>
      else m)"

text \<open>
  \<open>add_message\<close> at time \<open>now\<close>, the value of both calls of \<open>datetime.now()\<close> in it. The
  message is appended before the metadata is updated, so
  an exception raised there leaves it appended and the history not truncated. The history
  that \<open>truncate_history\<close> receives holds the appended message, so its index 0 exists.
\<close>

definition append_message :: "string \<Rightarrow> string \<Rightarrow> string option \<Rightarrow> int \<Rightarrow> manager \<Rightarrow> outcome \<times> manager" where
  "append_message r c e now m =
     (let msg = \<lparr>role = r, content = c, timestamp = Some now,
                 emotion = Some (emotion_or e (conversation_mood m))\<rparr>;
          m1 = m\<lparr>conversation_history := conversation_history m @ [msg]\<rparr>
      in case update_conversation_meta c r now m1 of
           (Raises x, m2) \<Rightarrow> (Raises x, m2)
         | (Returns, m2) \<Rightarrow> (Returns, truncate_history m2))"

definition add_message ::
  "string \<Rightarrow> string \<Rightarrow> string option \<Rightarrow> int \<Rightarrow> rng \<Rightarrow> manager \<Rightarrow> outcome \<times> manager \<times> rng" where
  "add_message r c e now g m =
     (if py_strip c = [] then (Returns, m, g)
      else if r = ''assistant'' \<and> \<not> prefix ''[THOUGHTS:'' c then
        (case humanize_text c (conversation_mood m) g of
           (Inl x, g1) \<Rightarrow> (Raises x, m, g1)
         | (Inr c1, g1) \<Rightarrow> (case append_message r c1 e now m of (out, m1) \<Rightarrow> (out, m1, g1)))
      else (case append_message r c e now m of (out, m1) \<Rightarrow> (out, m1, g)))"

section \<open>Sentiment (ai_brain.py)\<close>

definition positive_words :: "string list" where
  "positive_words = [''happy'', ''great'', ''awesome'', ''amazing'', ''love'', ''wonderful'']"

definition negative_words :: "string list" where
  "negative_words = [''sad'', ''bad'', ''terrible'', ''awful'', ''hate'', ''angry'']"

definition pos_count :: "string \<Rightarrow> nat" where
  "pos_count text = card (set (py_split (py_lower text)) \<inter> set positive_words)"

definition neg_count :: "string \<Rightarrow> nat" where
  "neg_count text = card (set (py_split (py_lower text)) \<inter> set negative_words)"

definition analyze_sentiment :: "string \<Rightarrow> string" where
  "analyze_sentiment text =
     (if pos_count text > neg_count text + 1 then ''happy''
      else if neg_count text > pos_count text + 1 then ''concerned''
      else ''neutral'')"

section \<open>The response orchestrator (ai_brain.py)\<close>

text \<open>
  The completion service is an external collaborator: a function of the request that
  returns a text, returns something that is not a string, or raises. The request carries
  what \<open>get_response\<close> takes from the conversation: the remembered name, the mood, the
  joined topics cut to 100 characters and the last 10 messages of the history. The topics
  are a Python set, joined in its iteration order; the model keeps them in the order of
  their insertion.
\<close>

datatype completion_result = Payload string | NonString | Throws exn

record request =
  req_user_name :: string
  req_mood :: string
  req_topics :: string
  req_recent :: "message list"

fun join :: "string \<Rightarrow> string list \<Rightarrow> string" where
  "join sep [] = []"
| "join sep [x] = x"
| "join sep (x # y # ys) = x @ sep @ join sep (y # ys)"

definition build_request :: "manager \<Rightarrow> request" where
  "build_request m =
     \<lparr>req_user_name = user_name m, req_mood = conversation_mood m,
      req_topics = take 100 (join '', '' (conversation_topics m)),
      req_recent = slice_from (- 10) (conversation_history m)\<rparr>"

record environment =
  completion_service :: "request \<Rightarrow> completion_result"
  t_user :: int
  t_reply :: int
  thoughts_writable :: bool
  errors_writable :: bool

record error_context =
  error_type :: string
  last_user_message :: string
  conversation_length :: nat

record world =
  conversation :: manager
  randomness :: rng
  thoughts_log :: "string list"
  error_log :: "error_context list"

text \<open>
  The THOUGHTS/RESPONSE block. \<open>thoughts_of\<close> is the text logged, \<open>response_of\<close> the new
  value of \<open>ai_response\<close>. An \<open>IndexError\<close> leaves \<open>ai_response\<close> as it was.
\<close>

definition thoughts_of :: "string \<Rightarrow> exn + string" where
  "thoughts_of raw =
     (case split_once ''[THOUGHTS:'' raw of
        None \<Rightarrow> Inl IndexError
      | Some (before, thoughts_part) \<Rightarrow>
          Inr (py_strip (case split_once '']'' thoughts_part of
                           None \<Rightarrow> thoughts_part
                         | Some (t, rest) \<Rightarrow> t)))"

definition response_of :: "string \<Rightarrow> string" where
  "response_of raw =
     (case split_once ''[RESPONSE:'' raw of
        None \<Rightarrow> raw
      | Some (before, response_part) \<Rightarrow>
          (let r = py_strip response_part
           in if suffix '']'' r then py_strip (butlast r) else r))"

definition parse_payload :: "string \<Rightarrow> string option \<times> string" where
  "parse_payload raw =
     (if contains ''[THOUGHTS:'' raw \<and> contains ''[RESPONSE:'' raw then
        (case thoughts_of raw of
           Inl e \<Rightarrow> (None, raw)
         | Inr thoughts \<Rightarrow> (if thoughts \<noteq> [] then Some thoughts else None, response_of raw))
      else (None, raw))"

definition log_thoughts :: "bool \<Rightarrow> string option \<Rightarrow> string list \<Rightarrow> string list" where
  "log_thoughts writable th lg =
     (case th of None \<Rightarrow> lg | Some t \<Rightarrow> if writable then lg @ [t] else lg)"

text \<open>The first two statements of the \<open>try\<close> block: the mood, then the user message.\<close>

definition set_mood :: "string \<Rightarrow> manager \<Rightarrow> manager" where
  "set_mood user_text m = m\<lparr>conversation_mood := analyze_sentiment user_text\<rparr>"

definition add_user_message :: "environment \<Rightarrow> string \<Rightarrow> world \<Rightarrow> outcome \<times> world" where
  "add_user_message env user_text w =
     (case add_message ''user'' user_text None (t_user env) (randomness w)
             (set_mood user_text (conversation w)) of
        (out, m, g) \<Rightarrow> (out, w\<lparr>conversation := m, randomness := g\<rparr>))"

text \<open>The rest of the \<open>try\<close> block, from the validated text of the completion on.\<close>

definition record_topic :: "string \<Rightarrow> manager \<Rightarrow> manager" where
  "record_topic ai_response m =
     (if length (conversation_history m) > 3
      then m\<lparr>conversation_topics := List.insert (py_strip (take 30 ai_response)) (conversation_topics m)\<rparr>
      else m)"

definition deliver :: "environment \<Rightarrow> string \<Rightarrow> string \<Rightarrow> world \<Rightarrow> (exn + string) \<times> world" where
  "deliver env sentiment raw w =
     (case parse_payload raw of
        (th, ai_response) \<Rightarrow>
          (let w1 = w\<lparr>thoughts_log := log_thoughts (thoughts_writable env) th (thoughts_log w)\<rparr>
           in case add_message ''assistant'' ai_response (Some sentiment) (t_reply env)
                     (randomness w1) (record_topic ai_response (conversation w1)) of
                (Raises x, m, g) \<Rightarrow> (Inl x, w1\<lparr>conversation := m, randomness := g\<rparr>)
              | (Returns, m, g) \<Rightarrow> (Inr ai_response, w1\<lparr>conversation := m, randomness := g\<rparr>)))"

definition try_block :: "environment \<Rightarrow> string \<Rightarrow> world \<Rightarrow> (exn + string) \<times> world" where
  "try_block env user_text w =
     (case add_user_message env user_text w of
        (Raises x, w1) \<Rightarrow> (Inl x, w1)
      | (Returns, w1) \<Rightarrow>
          (case completion_service env (build_request (conversation w1)) of
             Throws x \<Rightarrow> (Inl x, w1)
           | NonString \<Rightarrow> (Inl ValueError, w1)
           | Payload raw \<Rightarrow>
               if py_strip raw = [] then (Inl ValueError, w1)
               else deliver env (analyze_sentiment user_text) raw w1))"

text \<open>
  The four \<open>except\<close> clauses, in their order: the name logged as the error type, the text of
  the apology around the emotion, the key given to \<open>get_random_emotion\<close> and the emotion
  given to \<open>humanize_text\<close>.
\<close>

definition type_name :: "exn \<Rightarrow> string" where
  "type_name x =
     (case x of APIError \<Rightarrow> ''APIError'' | JSONDecodeError \<Rightarrow> ''JSONDecodeError''
      | ValueError \<Rightarrow> ''ValueError'' | IndexError \<Rightarrow> ''IndexError''
      | KeyError \<Rightarrow> ''KeyError'' | OtherError n \<Rightarrow> n)"

definition except_clause :: "exn \<Rightarrow> string \<times> string \<times> string \<times> string \<times> string" where
  "except_clause x =
     (case x of
        APIError \<Rightarrow>
          (''API Error'', ''I'm having trouble connecting to the AI service. '', ''sad'',
           '' Let's try again in a moment.'', ''concerned'')
      | JSONDecodeError \<Rightarrow>
          (''JSON Decode Error'', ''I had trouble understanding the response. '', ''confused'',
           '' Could you rephrase that?'', ''confused'')
      | ValueError \<Rightarrow>
          (''Value Error'', ''I received an unexpected response format. '', ''confused'',
           '' Let me try that again.'', ''confused'')
      | _ \<Rightarrow>
          (type_name x, ''Hmm, something unexpected happened ('' @ type_name x @ ''). '',
           ''thinking'', '' Let's try that again.'', ''thinking''))"

definition log_error :: "bool \<Rightarrow> string \<Rightarrow> manager \<Rightarrow> error_context list \<Rightarrow> error_context list" where
  "log_error writable ty m lg =
     (if writable
      then lg @ [\<lparr>error_type = ty,
                  last_user_message =
                    (if conversation_history m \<noteq> [] then content (last (conversation_history m))
                     else ''No conversation history''),
                  conversation_length = length (conversation_history m)\<rparr>]
      else lg)"

definition handle :: "environment \<Rightarrow> exn \<Rightarrow> world \<Rightarrow> (exn + string) \<times> world" where
  "handle env x w =
     (case except_clause x of
        (ty, before, key, after, tone) \<Rightarrow>
          (case get_random_emotion key (randomness w) of
             (Inl y, g) \<Rightarrow> (Inl y, w\<lparr>randomness := g\<rparr>)
           | (Inr emo, g) \<Rightarrow>
               (let w1 = w\<lparr>randomness := g,
                           error_log := log_error (errors_writable env) ty (conversation w) (error_log w)\<rparr>
                in case humanize_text (before @ emo @ after) tone g of
                     (res, g1) \<Rightarrow> (res, w1\<lparr>randomness := g1\<rparr>))))"

text \<open>\<open>get_response\<close>: \<open>Inr\<close> is the string returned, \<open>Inl\<close> an exception that reaches the
  caller.\<close>

definition get_response :: "environment \<Rightarrow> string \<Rightarrow> world \<Rightarrow> (exn + string) \<times> world" where
  "get_response env user_text w =
     (case try_block env user_text w of
        (Inr ai_response, w1) \<Rightarrow> (Inr ai_response, w1)
      | (Inl x, w1) \<Rightarrow> handle env x w1)"

section \<open>Auxiliary notions for the properties\<close>

text \<open>
  The invariant of the rolling buffer: at most 5 decisions, and every decision from index
  3 on is negative.
\<close>

definition buf_ok :: "bool list \<Rightarrow> bool" where
  "buf_ok b = (length b \<le> 5 \<and> \<not> list_ex id (drop 3 b))"

text \<open>
  A call of \<open>add_message\<close> with its arguments and the time at which it runs; the manager
  and the generator after one call, whether it returned or raised, and after a sequence of
  calls.
\<close>

record call =
  call_role :: string
  call_content :: string
  call_emotion :: "string option"
  call_time :: int

definition after_add :: "call \<Rightarrow> manager \<times> rng \<Rightarrow> manager \<times> rng" where
  "after_add c s =
     snd (add_message (call_role c) (call_content c) (call_emotion c) (call_time c) (snd s) (fst s))"

definition after_calls :: "call list \<Rightarrow> manager \<times> rng \<Rightarrow> manager \<times> rng" where
  "after_calls cs s = foldl (\<lambda>s c. after_add c s) s cs"

definition user_says :: "string \<Rightarrow> call" where
  "user_says c = \<lparr>call_role = ''user'', call_content = c, call_emotion = None, call_time = 0\<rparr>"

text \<open>The up-to-\<open>n\<close> most recent elements of a list, in their order.\<close>

definition most_recent :: "nat \<Rightarrow> 'a list \<Rightarrow> 'a list" where
  "most_recent n xs = drop (length xs - n) xs"

text \<open>The number of distinct words of a vocabulary among the tokens of a text.\<close>

definition count_distinct :: "string list \<Rightarrow> string list \<Rightarrow> nat" where
  "count_distinct vocabulary tokens = length (remdups (filter (\<lambda>w. w \<in> set vocabulary) tokens))"

text \<open>A generator whose floats are all \<open>r\<close>, and one whose first float is \<open>r\<close> and whose
  later floats are all \<open>r'\<close>.\<close>

definition steady :: "real \<Rightarrow> rng" where
  "steady r = \<lparr>floats = sconst r, picks = sconst 0\<rparr>"

definition first_then :: "real \<Rightarrow> real \<Rightarrow> rng" where
  "first_then r r' = \<lparr>floats = r ## sconst r', picks = sconst 0\<rparr>"

text \<open>
  A world with a newly constructed manager, no history file and empty logs; an environment
  around a completion service, with both calls at time 0 and both logs writable.
\<close>

definition fresh_world :: "int \<Rightarrow> rng \<Rightarrow> world" where
  "fresh_world mh g =
     \<lparr>conversation = new_manager mh Absent 0, randomness = g, thoughts_log = [], error_log = []\<rparr>"

definition service_env :: "(request \<Rightarrow> completion_result) \<Rightarrow> environment" where
  "service_env f =
     \<lparr>completion_service = f, t_user = 0, t_reply = 0,
      thoughts_writable = True, errors_writable = True\<rparr>"

text \<open>
  The payload of the scenario, a service that returns it, and the world after the user
  message \<open>Hello\<close> was added to a fresh world.
\<close>

definition scenario_payload :: string where
  "scenario_payload = ''[THOUGHTS: I should be concise][RESPONSE: Hello there]''"

definition scenario_env :: environment where
  "scenario_env = service_env (\<lambda>r. Payload scenario_payload)"

definition after_hello :: "rng \<Rightarrow> world" where
  "after_hello g =
     \<lparr>conversation =
        (new_manager 15 Absent 0)\<lparr>conversation_history :=
           [system_message,
            \<lparr>role = ''user'', content = ''Hello'', timestamp = Some 0, emotion = Some ''neutral''\<rparr>]\<rparr>,
      randomness = g, thoughts_log = [], error_log = []\<rparr>"

section \<open>Properties of the voice activity detector\<close>

subsection \<open>The rolling buffer\<close>

text \<open>
  The buffer never holds more than 5 decisions, and every decision from index 3 on is
  negative: a positive decision trims the buffer to 3, and the sixth entry, which can only
  follow three negative ones, clears it.
\<close>

lemma drop3_snoc:
  assumes "\<not> list_ex id (drop 3 b)"
  shows "\<not> list_ex id (drop 3 (b @ [False]))"
  using assms by (auto simp add: list_ex_iff dest: in_set_dropD)

lemma last3_full:
  assumes "length b = 5"
  shows "last3 (b @ [False]) = drop 3 b @ [False]"
  using assms by (simp add: last3_def)

lemma update_buf_ok_pos:
  assumes "buf_ok (speech_buffer d)"
  shows "buf_ok (speech_buffer (update_speech_state True d))"
  using assms by (simp add: update_speech_state_def Let_def last3_def buf_ok_def)

lemma update_buf_ok_neg:
  assumes "buf_ok (speech_buffer d)"
  shows "buf_ok (speech_buffer (update_speech_state False d))"
proof (cases "length (speech_buffer d) = 5")
  case True
  have "\<not> list_ex id (drop 3 (speech_buffer d) @ [False])"
    using assms by (simp add: buf_ok_def)
  then have "\<not> list_ex id (last3 (speech_buffer d @ [False]))"
    using True by (simp add: last3_full)
  then show ?thesis
    using True by (simp add: update_speech_state_def Let_def buf_ok_def)
next
  case False
  then have short: "length (speech_buffer d) < 5"
    using assms by (simp add: buf_ok_def)
  have "\<not> list_ex id (drop 3 (speech_buffer d))"
    using assms by (simp add: buf_ok_def)
  then have "\<not> list_ex id (drop 3 (speech_buffer d @ [False]))"
    by (rule drop3_snoc)
  then show ?thesis
    using short by (simp add: update_speech_state_def Let_def buf_ok_def del: drop_append)
qed

lemma update_buf_ok:
  assumes "buf_ok (speech_buffer d)"
  shows "buf_ok (speech_buffer (update_speech_state r d))"
  using assms by (cases r) (simp_all add: update_buf_ok_pos update_buf_ok_neg)

lemma raw_decision_buffer:
  assumes "raw_decision cls d a = Inr (r, d')"
  shows "speech_buffer d' = speech_buffer d"
  using assms by (auto simp add: raw_decision_def Let_def split: if_splits scan.splits)

lemma after_call_buf_ok:
  assumes "buf_ok (speech_buffer d)"
  shows "buf_ok (speech_buffer (after_call cls d a))"
proof (cases "raw_decision cls d a")
  case (Inl e)
  then show ?thesis using assms by (simp add: after_call_def process_audio_def)
next
  case (Inr p)
  obtain r d' where p: "p = (r, d')" by (cases p)
  have "buf_ok (speech_buffer d')"
    using assms raw_decision_buffer [of cls d a r d'] Inr p by simp
  then show ?thesis
    using Inr p by (simp add: after_call_def process_audio_def update_buf_ok)
qed

lemma run_frames_buf_ok:
  "buf_ok (speech_buffer d) \<Longrightarrow> buf_ok (speech_buffer (run_frames cls d fs))"
  unfolding run_frames_def
  by (induction fs arbitrary: d) (simp_all add: after_call_buf_ok)

text \<open>
  C6. Whatever frames a detector processes and however the classifier behaves, after every
  call of \<open>process_audio\<close> the rolling buffer of raw decisions holds at most 5 entries.
\<close>

theorem speech_buffer_bounded:
  "length (speech_buffer (run_frames cls (init_detector sr avail) fs)) \<le> 5"
proof -
  have "buf_ok (speech_buffer (init_detector sr avail))"
    by (simp add: init_detector_def buf_ok_def)
  then have "buf_ok (speech_buffer (run_frames cls (init_detector sr avail) fs))"
    by (rule run_frames_buf_ok)
  then show ?thesis by (simp add: buf_ok_def)
qed

theorem speech_buffer_bounded_witness:
  "length (speech_buffer (run_frames (\<lambda>f sr. Speech) (init_detector 16000 True)
     [PCM16 [], Floats [1], PCM16 [0, 0]])) \<le> 5"
  by (rule speech_buffer_bounded)

subsection \<open>Entering and leaving the speaking state\<close>

text \<open>
  The smoothed state is left only on a negative decision that finds 5 entries in the
  buffer and makes the last 3 negative. It is entered on a positive decision that finds 3
  entries in the buffer, whatever their values.
\<close>

lemma leave_speaking:
  assumes "is_speaking d" "\<not> is_speaking (update_speech_state r d)"
  shows "\<not> r \<and> 5 \<le> length (speech_buffer d) \<and>
         \<not> list_ex id (last3 (speech_buffer d @ [False]))"
  using assms by (auto simp add: update_speech_state_def Let_def split: if_splits)

lemma enter_speaking:
  assumes "\<not> is_speaking d" "is_speaking (update_speech_state r d)"
  shows "r \<and> 3 \<le> length (speech_buffer d)"
  using assms by (auto simp add: update_speech_state_def Let_def split: if_splits)

text \<open>
  C1. The claim is that the smoothed output becomes true only after at least 3 consecutive
  positive raw decisions since the last negative one. On the raw decisions negative,
  negative, negative, positive a new detector is not speaking after the third and is
  speaking after the fourth: one positive decision was enough, because the length test
  counts the negative entries of the buffer too.
\<close>

theorem one_detection_enters_speaking:
  "\<not> is_speaking (feed [False, False, False] (init_detector 16000 True)) \<and>
   is_speaking (feed [False, False, False, True] (init_detector 16000 True))"
  by (simp add: feed_def update_speech_state_def init_detector_def Let_def last3_def)

subsection \<open>The energy fallback\<close>

lemma trunc0_quiet: "trunc0 (32767 / 128) = 255"
  unfolding trunc0_def by (simp add: floor_eq_iff)

lemma to_int16_quiet: "to_int16 (Floats (replicate n (1 / 128))) = replicate n 255"
  using trunc0_quiet by (simp add: to_int16_def wrap16_def)

lemma energy_detect_quiet:
  assumes "0 < n"
  shows "energy_detect (replicate n 255)"
  using assms by (simp add: energy_detect_def energy_def wrap16_def sum_list_replicate)

lemma fallback_quiet:
  assumes "\<not> vad d" "0 < n"
  shows "raw_decision cls d (Floats (replicate n (1 / 128))) = Inr (True, d)"
  using assms by (simp add: raw_decision_def to_int16_quiet energy_detect_quiet)

lemma mean_abs_quiet:
  assumes "0 < n"
  shows "sum_list (map abs (replicate n (1 / 128 :: real))) / real (length (replicate n (1 / 128 :: real)))
         < 1 / 100"
  using assms by (simp add: sum_list_replicate)

text \<open>
  C5. The claim is that without the classifier a frame of normalized samples is speech
  exactly when its mean absolute amplitude exceeds 0.01. A frame of 480 samples of
  amplitude 1/128 has mean absolute amplitude 1/128, below 0.01, and is classified as
  speech: the frame is converted to 16-bit integers before the test, so the threshold is
  compared with the mean of samples of value 255.
\<close>

theorem quiet_frame_is_speech:
  "raw_decision cls (init_detector 16000 False) (Floats (replicate 480 (1 / 128)))
     = Inr (True, init_detector 16000 False) \<and>
   sum_list (map abs (replicate 480 (1 / 128 :: real))) / real (length (replicate 480 (1 / 128 :: real)))
     < 1 / 100"
proof (rule conjI)
  have off: "\<not> vad (init_detector 16000 False)"
    by (simp add: init_detector_def)
  have pos: "0 < (480 :: nat)"
    by simp
  show "raw_decision cls (init_detector 16000 False) (Floats (replicate 480 (1 / 128)))
     = Inr (True, init_detector 16000 False)"
    using off pos by (rule fallback_quiet)
  show "sum_list (map abs (replicate 480 (1 / 128 :: real))) / real (length (replicate 480 (1 / 128 :: real)))
     < 1 / 100"
    using pos by (rule mean_abs_quiet)
qed

section \<open>Properties of the string operations\<close>

text \<open>
  \<open>split_once\<close> cuts a text at the first occurrence of the separator, and \<open>contains\<close> holds
  exactly of the texts in which the separator occurs.
\<close>

lemma split_once_decompose:
  assumes "split_once sep s = Some (a, b)"
  shows "s = a @ sep @ b"
  using assms
proof (induction s arbitrary: a)
  case Nil
  then show ?case by (simp split: if_splits)
next
  case (Cons c cs)
  show ?case
  proof (cases "prefix sep (c # cs)")
    case True
    then obtain zs where zs: "c # cs = sep @ zs" by (auto simp add: prefix_def)
    from True Cons.prems have "a = []" "b = drop (length sep) (c # cs)" by simp_all
    then show ?thesis using zs by simp
  next
    case False
    with Cons.prems obtain a0 where a0: "split_once sep cs = Some (a0, b)" "a = c # a0"
      by (auto split: option.splits)
    then show ?thesis using Cons.IH [of a0] by simp
  qed
qed

lemma split_once_first:
  assumes "split_once sep (a' @ sep @ b') = Some (a, b)"
  shows "length a \<le> length a'"
  using assms
proof (induction a' arbitrary: a)
  case Nil
  have "prefix sep (sep @ b')" by simp
  then have "a = []"
    using Nil by (cases "sep @ b'") (auto split: if_splits)
  then show ?case by simp
next
  case (Cons c a1)
  show ?case
  proof (cases "prefix sep (c # a1 @ sep @ b')")
    case True
    with Cons.prems have "a = []" by simp
    then show ?thesis by simp
  next
    case False
    with Cons.prems obtain a0 where a0: "split_once sep (a1 @ sep @ b') = Some (a0, b)" "a = c # a0"
      by (auto split: option.splits)
    show ?thesis using Cons.IH [OF a0(1)] a0(2) by simp
  qed
qed

lemma split_once_occurs:
  "split_once sep (a @ sep @ b) \<noteq> None"
proof (induction a)
  case Nil
  have p: "prefix sep (sep @ b)" by simp
  show ?case
  proof (cases "sep @ b")
    case Nil
    then show ?thesis by simp
  next
    case (Cons c cs)
    then show ?thesis using p by simp
  qed
next
  case (Cons c a)
  then show ?case by (cases "split_once sep (a @ sep @ b)") auto
qed

lemma contains_iff: "contains sep s \<longleftrightarrow> (\<exists>a b. s = a @ sep @ b)"
proof
  assume "contains sep s"
  then obtain a b where "split_once sep s = Some (a, b)"
    by (auto simp add: contains_def)
  then show "\<exists>a b. s = a @ sep @ b" using split_once_decompose by blast
next
  assume "\<exists>a b. s = a @ sep @ b"
  then show "contains sep s" using split_once_occurs by (auto simp add: contains_def)
qed

lemma py_strip_empty: "py_strip s = [] \<longleftrightarrow> (\<forall>x \<in> set s. isspace x)"
proof
  assume "py_strip s = []"
  then have "dropWhile isspace (rev (dropWhile isspace s)) = []"
    by (simp add: py_strip_def)
  then have all: "\<forall>x \<in> set (dropWhile isspace s). isspace x"
    by (simp add: dropWhile_eq_Nil_conv)
  have "dropWhile isspace s = []"
  proof (rule ccontr)
    assume ne: "dropWhile isspace s \<noteq> []"
    then have "\<not> isspace (hd (dropWhile isspace s))" by (rule hd_dropWhile)
    moreover have "hd (dropWhile isspace s) \<in> set (dropWhile isspace s)" using ne by simp
    ultimately show False using all by blast
  qed
  then show "\<forall>x \<in> set s. isspace x" by (simp add: dropWhile_eq_Nil_conv)
next
  assume "\<forall>x \<in> set s. isspace x"
  then show "py_strip s = []"
    by (auto simp add: py_strip_def dest: set_dropWhileD)
qed

lemma split_run_blank:
  assumes "\<forall>x \<in> set s. isspace x"
  shows "split_run [] s = []"
  using assms by (induction s) simp_all

lemma lower_char_fix:
  assumes "x \<notin> set ''ABCDEFGHIJKLMNOPQRSTUVWXYZ''"
  shows "lower_char x = x"
proof -
  have "length ''ABCDEFGHIJKLMNOPQRSTUVWXYZ'' = length ''abcdefghijklmnopqrstuvwxyz''"
    by simp
  then have "map_of (zip ''ABCDEFGHIJKLMNOPQRSTUVWXYZ'' ''abcdefghijklmnopqrstuvwxyz'') x = None"
    using assms by (simp only: map_of_zip_is_None simp_thms)
  then show ?thesis by (simp only: lower_char_def option.case)
qed

lemma space_not_upper:
  assumes "isspace x"
  shows "x \<notin> set ''ABCDEFGHIJKLMNOPQRSTUVWXYZ''"
proof
  assume "x \<in> set ''ABCDEFGHIJKLMNOPQRSTUVWXYZ''"
  then have "\<not> isspace x"
    unfolding isspace_def whitespace_def
    by (simp only: list.set insert_iff empty_iff, elim disjE; simp)
  then show False using assms by simp
qed

lemma isspace_lower: "isspace x \<Longrightarrow> lower_char x = x"
  by (rule lower_char_fix) (rule space_not_upper)

lemma lower_blank:
  assumes "\<forall>x \<in> set s. isspace x"
  shows "py_lower s = s"
  using assms by (induction s) (simp_all add: py_lower_def isspace_lower)

section \<open>Properties of the conversation manager\<close>

subsection \<open>Name extraction\<close>

lemma phrase_not_blank:
  assumes "contains ''my name is '' (py_lower c)"
  shows "py_strip c \<noteq> []"
proof
  assume "py_strip c = []"
  then have blank: "\<forall>x \<in> set c. isspace x" by (simp only: py_strip_empty)
  then have "py_lower c = c" by (rule lower_blank)
  then obtain a b where "c = a @ ''my name is '' @ b"
    using assms by (auto simp add: contains_iff)
  then have "CHR ''m'' \<in> set c" by simp
  then have "isspace CHR ''m''" using blank by blast
  then show False by (simp add: isspace_def whitespace_def)
qed

lemma name_part_absent:
  assumes "\<not> contains ''my name is '' c"
  shows "name_part c = Inl IndexError"
proof -
  have "split_once ''my name is '' c = None"
    using assms by (simp only: contains_def simp_thms)
  then show ?thesis by (simp add: name_part_def)
qed

lemma name_part_blank_rest:
  assumes "split_once ''my name is '' c = Some (a, b)" "\<forall>x \<in> set b. isspace x"
  shows "name_part c = Inl IndexError"
  using assms by (simp add: name_part_def py_split_def split_run_blank)

lemma meta_raises:
  assumes "contains ''my name is '' (py_lower c)" "name_part c = Inl x"
  shows "fst (update_conversation_meta c ''user'' now m) = Raises x \<and>
         user_name (snd (update_conversation_meta c ''user'' now m)) = user_name m \<and>
         user_preferences (snd (update_conversation_meta c ''user'' now m)) = user_preferences m"
  using assms by (simp add: update_conversation_meta_def Let_def)

lemma add_user_message_unfold:
  assumes "py_strip c \<noteq> []"
  shows "add_message ''user'' c e now g m =
           (case append_message ''user'' c e now m of (out, m1) \<Rightarrow> (out, m1, g))"
  using assms by (simp add: add_message_def)

lemma append_raises:
  assumes "contains ''my name is '' (py_lower c)" "name_part c = Inl x"
  shows "fst (append_message ''user'' c e now m) = Raises x \<and>
         user_name (snd (append_message ''user'' c e now m)) = user_name m \<and>
         user_preferences (snd (append_message ''user'' c e now m)) = user_preferences m"
proof -
  let ?m1 = "m\<lparr>conversation_history := conversation_history m @
      [\<lparr>role = ''user'', content = c, timestamp = Some now,
        emotion = Some (emotion_or e (conversation_mood m))\<rparr>]\<rparr>"
  obtain out m2 where r: "update_conversation_meta c ''user'' now ?m1 = (out, m2)"
    by (cases "update_conversation_meta c ''user'' now ?m1")
  from meta_raises [OF assms, of now ?m1] r
  have "out = Raises x" "user_name m2 = user_name m" "user_preferences m2 = user_preferences m"
    by simp_all
  then show ?thesis using r by (simp add: append_message_def Let_def)
qed

text \<open>
  C10, amended. For a user message whose lower-cased content contains \<open>my name is\<close>
  followed by a space, \<open>add_message\<close> raises \<open>IndexError\<close> and leaves the remembered name
  and the name preference unchanged whenever the original content does not contain that
  lower-case phrase, or contains it with only whitespace after its first occurrence (the
  text that \<open>split('my name is ', 1)\<close> returns at index 1).
\<close>

theorem name_phrase_raises:
  assumes "contains ''my name is '' (py_lower c)"
    and "\<not> contains ''my name is '' c \<or>
         (\<exists>a b. split_once ''my name is '' c = Some (a, b) \<and> (\<forall>x \<in> set b. isspace x))"
  shows "fst (add_message ''user'' c e now g m) = Raises IndexError \<and>
         user_name (fst (snd (add_message ''user'' c e now g m))) = user_name m \<and>
         user_preferences (fst (snd (add_message ''user'' c e now g m))) = user_preferences m"
proof -
  have np: "name_part c = Inl IndexError"
    using assms(2) name_part_absent name_part_blank_rest by blast
  have nb: "py_strip c \<noteq> []"
    using assms(1) by (rule phrase_not_blank)
  obtain out m1 where r: "append_message ''user'' c e now m = (out, m1)"
    by (cases "append_message ''user'' c e now m")
  from append_raises [OF assms(1) np, of e now m] r
  have "out = Raises IndexError" "user_name m1 = user_name m" "user_preferences m1 = user_preferences m"
    by simp_all
  then show ?thesis using r by (simp add: add_user_message_unfold [OF nb])
qed

theorem name_phrase_raises_witness:
  "contains ''my name is '' (py_lower ''Well, my name is   '') \<and>
   split_once ''my name is '' ''Well, my name is   '' = Some (''Well, '', ''  '') \<and>
   isspace CHR '' '' \<and>
   fst (add_message ''user'' ''Well, my name is   '' None 0 (steady 0) (new_manager 15 Absent 0))
     = Raises IndexError"
proof -
  have h1: "contains ''my name is '' (py_lower ''Well, my name is   '')"
    by (simp add: contains_def py_lower_def lower_char_def)
  have sp: "isspace CHR '' ''"
    by (simp add: isspace_def whitespace_def)
  have cut: "split_once ''my name is '' ''Well, my name is   '' = Some (''Well, '', ''  '')"
    by simp
  have h2: "\<not> contains ''my name is '' ''Well, my name is   '' \<or>
    (\<exists>a b. split_once ''my name is '' ''Well, my name is   '' = Some (a, b) \<and>
           (\<forall>x \<in> set b. isspace x))"
    using sp cut by simp
  show ?thesis
    using h1 sp cut name_phrase_raises [OF h1 h2, of None 0 "steady 0" "new_manager 15 Absent 0"]
    by blast
qed

text \<open>
  C10 as stated fails. The content below contains the lower-case phrase with only
  whitespace after it, at its second occurrence; the call returns and remembers the name
  that follows the first occurrence.
\<close>

theorem later_occurrence_returns:
  "contains ''my name is '' (py_lower ''my name is Bob, my name is  '') \<and>
   ''my name is Bob, my name is  '' = ''my name is Bob, '' @ ''my name is '' @ '' '' \<and>
   isspace CHR '' '' \<and>
   fst (add_message ''user'' ''my name is Bob, my name is  '' None 0 (steady 0)
          (new_manager 15 Absent 0)) = Returns \<and>
   user_name (fst (snd (add_message ''user'' ''my name is Bob, my name is  '' None 0 (steady 0)
          (new_manager 15 Absent 0)))) = ''Bob''"
  by (simp add: contains_def py_lower_def lower_char_def isspace_def whitespace_def
        add_message_def py_strip_def append_message_def update_conversation_meta_def Let_def
        name_part_def py_split_def py_rstrip_def new_manager_def initialize_conversation_def
        truncate_history_def hour_def)

lemma kwame_strip: "py_strip ''My name is Kwame'' \<noteq> []"
  by (simp add: py_strip_def isspace_def whitespace_def)

lemma kwame_lower: "contains ''my name is '' (py_lower ''My name is Kwame'')"
  by (simp add: py_lower_def lower_char_def contains_def)

lemma kwame_name_part: "name_part ''My name is Kwame'' = Inl IndexError"
  by (simp add: name_part_def)

text \<open>
  C7. The claim is that for every user message that contains the phrase in any letter case
  the next token is extracted and remembered. On the user message \<open>My name is Kwame\<close>
  the call raises \<open>IndexError\<close> and the remembered name is unchanged: the phrase is looked
  for in the lower-cased content, and the original content is split.
\<close>

theorem capitalised_phrase_raises:
  "fst (add_message ''user'' ''My name is Kwame'' e now g m) = Raises IndexError \<and>
   user_name (fst (snd (add_message ''user'' ''My name is Kwame'' e now g m))) = user_name m"
  by (simp add: add_message_def kwame_strip append_message_def update_conversation_meta_def
        Let_def kwame_lower kwame_name_part)

text \<open>The two examples of the claim are as it says.\<close>

lemma name_example_kwame:
  "fst (add_message ''user'' ''Hi, my name is Kwame.'' None 0 g (new_manager 15 Absent 0)) = Returns \<and>
   user_name (fst (snd (add_message ''user'' ''Hi, my name is Kwame.'' None 0 g
     (new_manager 15 Absent 0)))) = ''Kwame'' \<and>
   user_preferences (fst (snd (add_message ''user'' ''Hi, my name is Kwame.'' None 0 g
     (new_manager 15 Absent 0)))) = [(''name'', ''Kwame'')]"
  by (simp add: contains_def py_lower_def lower_char_def isspace_def whitespace_def
        add_message_def py_strip_def append_message_def update_conversation_meta_def Let_def
        name_part_def py_split_def py_rstrip_def new_manager_def initialize_conversation_def
        truncate_history_def hour_def)

lemma name_example_alone:
  "fst (add_message ''user'' ''my name is'' None 0 g (new_manager 15 Absent 0)) = Returns \<and>
   user_name (fst (snd (add_message ''user'' ''my name is'' None 0 g
     (new_manager 15 Absent 0)))) = ''User''"
  by (simp add: contains_def py_lower_def lower_char_def isspace_def whitespace_def
        add_message_def py_strip_def append_message_def update_conversation_meta_def Let_def
        new_manager_def initialize_conversation_def truncate_history_def hour_def)

subsection \<open>The bound on the history and the system message\<close>

lemma meta_keeps:
  "conversation_history (snd (update_conversation_meta c r now m)) = conversation_history m \<and>
   max_history (snd (update_conversation_meta c r now m)) = max_history m"
  by (simp add: update_conversation_meta_def Let_def split: sum.splits)

lemma slice_from_negative:
  assumes "0 < k"
  shows "slice_from (- k) xs = most_recent (nat k) xs"
  using assms by (simp add: slice_from_def most_recent_def nat_diff_distrib' max_def) 

lemma truncate_bounded:
  assumes "1 \<le> max_history m"
  shows "int (length (conversation_history (truncate_history m))) \<le> max_history m * 2 + 1"
  using assms
  by (auto simp add: truncate_history_def slice_from_negative most_recent_def)

lemma truncate_keeps:
  "max_history (truncate_history m) = max_history m \<and>
   (conversation_history m \<noteq> [] \<longrightarrow>
      conversation_history (truncate_history m) \<noteq> [] \<and>
      hd (conversation_history (truncate_history m)) = hd (conversation_history m))"
  by (simp add: truncate_history_def)

lemma append_message_cases:
  obtains (raised) x m2 where
      "append_message r c e now m = (Raises x, m2)"
      "max_history m2 = max_history m"
      "conversation_history m2 = conversation_history m @
         [\<lparr>role = r, content = c, timestamp = Some now,
           emotion = Some (emotion_or e (conversation_mood m))\<rparr>]"
  | (returned) m2 where
      "append_message r c e now m = (Returns, truncate_history m2)"
      "max_history m2 = max_history m"
      "conversation_history m2 = conversation_history m @
         [\<lparr>role = r, content = c, timestamp = Some now,
           emotion = Some (emotion_or e (conversation_mood m))\<rparr>]"
proof -
  let ?m1 = "m\<lparr>conversation_history := conversation_history m @
      [\<lparr>role = r, content = c, timestamp = Some now,
        emotion = Some (emotion_or e (conversation_mood m))\<rparr>]\<rparr>"
  obtain out m2 where u: "update_conversation_meta c r now ?m1 = (out, m2)"
    by (cases "update_conversation_meta c r now ?m1")
  have k: "conversation_history m2 = conversation_history ?m1" "max_history m2 = max_history ?m1"
    using meta_keeps [of c r now ?m1] u by simp_all
  show ?thesis
  proof (cases out)
    case Returns
    then have "append_message r c e now m = (Returns, truncate_history m2)"
      using u by (simp add: append_message_def Let_def)
    then show ?thesis using k returned by simp
  next
    case (Raises x)
    then have "append_message r c e now m = (Raises x, m2)"
      using u by (simp add: append_message_def Let_def)
    then show ?thesis using k raised by simp
  qed
qed

lemma append_message_keeps:
  assumes "conversation_history m \<noteq> []"
  shows "conversation_history (snd (append_message r c e now m)) \<noteq> [] \<and>
         hd (conversation_history (snd (append_message r c e now m))) = hd (conversation_history m) \<and>
         max_history (snd (append_message r c e now m)) = max_history m"
proof (cases rule: append_message_cases [of r c e now m])
  case (raised x m2)
  then show ?thesis using assms by auto
next
  case (returned m2)
  then have "conversation_history m2 \<noteq> []" "hd (conversation_history m2) = hd (conversation_history m)"
    using assms by auto
  then show ?thesis using returned truncate_keeps [of m2] by simp
qed

lemma append_message_bounded:
  assumes "1 \<le> max_history m" "fst (append_message r c e now m) = Returns"
  shows "int (length (conversation_history (snd (append_message r c e now m)))) \<le> max_history m * 2 + 1"
proof (cases rule: append_message_cases [of r c e now m])
  case (raised x m2)
  then show ?thesis using assms by simp
next
  case (returned m2)
  then show ?thesis using assms truncate_bounded [of m2] by simp
qed

lemma add_message_cases:
  obtains (same) out g' where "add_message r c e now g m = (out, m, g')"
  | (appended) c' g' where
      "add_message r c e now g m =
         (fst (append_message r c' e now m), snd (append_message r c' e now m), g')"
proof (cases "py_strip c = []")
  case True
  then have "add_message r c e now g m = (Returns, m, g)" by (simp add: add_message_def)
  then show ?thesis by (rule same)
next
  case nb: False
  show ?thesis
  proof (cases "r = ''assistant'' \<and> \<not> prefix ''[THOUGHTS:'' c")
    case True
    obtain res g1 where h: "humanize_text c (conversation_mood m) g = (res, g1)"
      by (cases "humanize_text c (conversation_mood m) g")
    show ?thesis
    proof (cases res)
      case (Inl x)
      then have "add_message r c e now g m = (Raises x, m, g1)"
        using nb True h by (simp add: add_message_def)
      then show ?thesis by (rule same)
    next
      case (Inr c1)
      then have "add_message r c e now g m =
         (fst (append_message r c1 e now m), snd (append_message r c1 e now m), g1)"
        using nb True h by (simp add: add_message_def split: prod.splits)
      then show ?thesis by (rule appended)
    qed
  next
    case False
    then have "add_message r c e now g m =
         (fst (append_message r c e now m), snd (append_message r c e now m), g)"
      using nb by (auto simp add: add_message_def split: prod.splits)
    then show ?thesis by (rule appended)
  qed
qed

lemma add_message_keeps:
  assumes "conversation_history m \<noteq> []"
  shows "conversation_history (fst (snd (add_message r c e now g m))) \<noteq> [] \<and>
         hd (conversation_history (fst (snd (add_message r c e now g m)))) = hd (conversation_history m) \<and>
         max_history (fst (snd (add_message r c e now g m))) = max_history m"
proof (cases rule: add_message_cases [of r c e now g m])
  case (same out g')
  then show ?thesis using assms by simp
next
  case (appended c' g')
  then show ?thesis using append_message_keeps [OF assms, of r c' e now] by simp
qed

lemma add_message_bounded:
  assumes "1 \<le> max_history m"
    and "int (length (conversation_history m)) \<le> max_history m * 2 + 1"
    and "fst (add_message r c e now g m) = Returns"
  shows "int (length (conversation_history (fst (snd (add_message r c e now g m)))))
           \<le> max_history m * 2 + 1"
proof (cases rule: add_message_cases [of r c e now g m])
  case (same out g')
  then show ?thesis using assms by simp
next
  case (appended c' g')
  then show ?thesis using assms append_message_bounded [of m r c' e now] by simp
qed

lemma after_calls_keeps:
  assumes "conversation_history (fst s) \<noteq> []"
  shows "conversation_history (fst (after_calls cs s)) \<noteq> [] \<and>
         hd (conversation_history (fst (after_calls cs s))) = hd (conversation_history (fst s)) \<and>
         max_history (fst (after_calls cs s)) = max_history (fst s)"
  using assms
proof (induction cs arbitrary: s)
  case Nil
  then show ?case by (simp add: after_calls_def)
next
  case (Cons c cs)
  have step: "conversation_history (fst (after_add c s)) \<noteq> [] \<and>
         hd (conversation_history (fst (after_add c s))) = hd (conversation_history (fst s)) \<and>
         max_history (fst (after_add c s)) = max_history (fst s)"
    using add_message_keeps [OF Cons.prems] by (simp add: after_add_def)
  then have "conversation_history (fst (after_calls cs (after_add c s))) \<noteq> [] \<and>
         hd (conversation_history (fst (after_calls cs (after_add c s))))
           = hd (conversation_history (fst (after_add c s))) \<and>
         max_history (fst (after_calls cs (after_add c s))) = max_history (fst (after_add c s))"
    using Cons.IH [of "after_add c s"] by simp
  then show ?case using step by (simp add: after_calls_def)
qed

lemmas run_defs =
  after_calls_def after_add_def user_says_def add_message_def py_strip_def isspace_def
  whitespace_def append_message_def update_conversation_meta_def Let_def contains_def
  py_lower_def lower_char_def name_part_def new_manager_def initialize_conversation_def
  truncate_history_def slice_from_def hour_def emotion_or_def

text \<open>
  C2. The claim is that after each call of \<open>add_message\<close> the history holds at most
  \<open>2 * max_history + 1\<close> messages. With \<open>max_history = 1\<close>, two user messages fill the
  history to 3; a third user message \<open>My name is Bob\<close> is appended, the name extraction
  raises \<open>IndexError\<close>, and the truncation that follows it in \<open>add_message\<close> is not reached:
  the history holds 4 messages. The system message stays at index 0.
\<close>

theorem raising_call_exceeds_bound:
  "max_history (fst (after_calls [user_says ''a'', user_says ''b'', user_says ''My name is Bob'']
      (new_manager 1 Absent 0, g))) = 1 \<and>
   length (conversation_history (fst (after_calls [user_says ''a'', user_says ''b'']
      (new_manager 1 Absent 0, g)))) = 3 \<and>
   length (conversation_history (fst (after_calls
      [user_says ''a'', user_says ''b'', user_says ''My name is Bob'']
      (new_manager 1 Absent 0, g)))) = 4 \<and>
   hd (conversation_history (fst (after_calls
      [user_says ''a'', user_says ''b'', user_says ''My name is Bob'']
      (new_manager 1 Absent 0, g)))) = system_message"
  by (simp add: run_defs)

text \<open>
  For \<open>max_history\<close> at least 1 and a manager reached from its construction by any calls of
  \<open>add_message\<close>: when the write of \<open>save_conversation\<close> succeeds, a fresh manager with the
  same \<open>max_history\<close> starts from the system message, which is also the first message of
  the saved manager, followed by the up-to-\<open>2 * max_history\<close> most recent of the messages
  that the saved manager holds after its first, in their order.
\<close>

lemma save_then_restore:
  assumes "1 \<le> mh"
  shows "initialize_conversation mh
           (save_conversation Written (fst (after_calls cs (new_manager mh f0 t0, g))) f)
         = system_message #
           most_recent (nat (2 * mh))
             (drop 1 (conversation_history (fst (after_calls cs (new_manager mh f0 t0, g))))) \<and>
         hd (conversation_history (fst (after_calls cs (new_manager mh f0 t0, g)))) = system_message \<and>
         max_history (fst (after_calls cs (new_manager mh f0 t0, g))) = mh"
proof -
  have pos: "0 < mh * 2" using assms by simp
  have start: "conversation_history (fst (new_manager mh f0 t0, g)) \<noteq> []"
    by (simp add: new_manager_def initialize_conversation_def)
  have first: "hd (conversation_history (fst (new_manager mh f0 t0, g))) = system_message"
    "max_history (fst (new_manager mh f0 t0, g)) = mh"
    by (simp_all add: new_manager_def initialize_conversation_def)
  have "nat (mh * 2) = nat (2 * mh)" by (simp add: mult.commute)
  then show ?thesis
    using after_calls_keeps [OF start, of cs] first slice_from_negative [OF pos]
    by (simp add: initialize_conversation_def save_conversation_def)
qed

lemma save_then_restore_instance:
  "(1 :: int) \<le> 1 \<and>
   initialize_conversation 1
     (save_conversation Written
        (fst (after_calls [user_says ''a'', user_says ''b'', user_says ''c'']
           (new_manager 1 Absent 0, steady 0))) Absent)
   = system_message #
     most_recent (nat (2 * 1))
       (drop 1 (conversation_history
          (fst (after_calls [user_says ''a'', user_says ''b'', user_says ''c'']
             (new_manager 1 Absent 0, steady 0)))))"
proof -
  have h: "(1 :: int) \<le> 1" by simp
  show ?thesis
    using h save_then_restore [OF h, of "[user_says ''a'', user_says ''b'', user_says ''c'']"
      Absent 0 "steady 0" Absent]
    by blast
qed

text \<open>
  C3. The claim is that after \<open>save_conversation\<close> a fresh manager with the same
  \<open>max_history\<close> holds the system message followed by the up-to-\<open>2 * max_history\<close> most
  recent messages of the saved manager. With \<open>max_history = 0\<close> and one user message, the
  claim gives the system message alone, a history of length 1; the fresh manager holds 3
  messages: the slice \<open>saved_history[-0:]\<close> is the whole list, so every saved message is
  restored, against the comment "Keep only the most recent messages to respect
  max_history".
\<close>

theorem zero_history_restores_all:
  "length (initialize_conversation 0
     (save_conversation Written
        (fst (after_calls [user_says ''hi''] (new_manager 0 Absent 0, steady 0))) Absent)) = 3 \<and>
   length (system_message #
     most_recent (nat (2 * 0))
       (drop 1 (conversation_history
          (fst (after_calls [user_says ''hi''] (new_manager 0 Absent 0, steady 0)))))) = 1"
  by (simp add: run_defs save_conversation_def most_recent_def)

lemma three_messages_kept:
  "map content (conversation_history
          (fst (after_calls [user_says ''a'', user_says ''b'', user_says ''c'']
             (new_manager 1 Absent 0, steady 0)))) = [content system_message, ''b'', ''c'']"
  by (simp add: run_defs)

section \<open>Properties of the sentiment derivation\<close>

text \<open>
  The counts of \<open>_analyze_sentiment\<close>, sizes of intersections of sets, are the numbers of
  distinct words of each vocabulary among the tokens of the lower-cased text.
\<close>

lemma count_distinct_card:
  "card (set tokens \<inter> set vocabulary) = count_distinct vocabulary tokens"
proof -
  have "set (filter (\<lambda>w. w \<in> set vocabulary) tokens) = set tokens \<inter> set vocabulary"
    by auto
  then show ?thesis
    by (simp add: count_distinct_def length_remdups_card_conv)
qed

lemma pos_count_distinct:
  "pos_count t = count_distinct positive_words (py_split (py_lower t))"
  by (simp add: pos_count_def count_distinct_card)

lemma neg_count_distinct:
  "neg_count t = count_distinct negative_words (py_split (py_lower t))"
  by (simp add: neg_count_def count_distinct_card)

lemmas eval_tokens =
  py_split_def py_lower_def lower_char_def isspace_def whitespace_def
  positive_words_def negative_words_def count_distinct_def

lemma sentiment_happy: "analyze_sentiment ''I am happy and it was amazing'' = ''happy''"
  by (simp add: analyze_sentiment_def pos_count_distinct neg_count_distinct eval_tokens)




section \<open>Properties of the response orchestrator\<close>

subsection \<open>The user message stays in the history\<close>

lemma most_recent_last:
  assumes "0 < n"
  shows "most_recent n (h @ [a]) \<noteq> [] \<and> last (most_recent n (h @ [a])) = a"
  using assms by (simp add: most_recent_def)

lemma most_recent_second:
  assumes "2 \<le> n" "h \<noteq> []"
  shows "last h \<in> set (most_recent n (h @ [a]))"
proof -
  let ?k = "length (h @ [a]) - n"
  have k: "?k < length h" using assms by (cases h) auto
  then have "drop ?k (h @ [a]) = drop ?k h @ [a]" by simp
  moreover have "drop ?k h \<noteq> []" using k by simp
  moreover have "last (drop ?k h) = last h" using k by (simp add: last_drop)
  ultimately show ?thesis
    unfolding most_recent_def by (metis last_in_set Un_iff set_append)
qed

lemma truncate_last:
  assumes "1 \<le> max_history m" "conversation_history m = h @ [a]"
  shows "conversation_history (truncate_history m) \<noteq> [] \<and>
         last (conversation_history (truncate_history m)) = a"
proof -
  have pos: "0 < max_history m * 2" using assms(1) by simp
  then have n: "0 < nat (max_history m * 2)" by simp
  show ?thesis
    using most_recent_last [OF n, of h a] assms(2)
    by (simp add: truncate_history_def slice_from_negative [OF pos])
qed

lemma truncate_second:
  assumes "1 \<le> max_history m" "conversation_history m = h @ [a]" "h \<noteq> []"
  shows "last h \<in> set (conversation_history (truncate_history m))"
proof -
  have pos: "0 < max_history m * 2" using assms(1) by simp
  have n: "2 \<le> nat (max_history m * 2)" using assms(1) by simp
  show ?thesis
    using most_recent_second [OF n assms(3), of a] assms(2) assms(3)
    by (simp add: truncate_history_def slice_from_negative [OF pos])
qed

lemma append_message_last:
  assumes "1 \<le> max_history m"
  shows "conversation_history (snd (append_message r c e now m)) \<noteq> [] \<and>
         last (conversation_history (snd (append_message r c e now m))) =
           \<lparr>role = r, content = c, timestamp = Some now,
            emotion = Some (emotion_or e (conversation_mood m))\<rparr>"
proof (cases rule: append_message_cases [of r c e now m])
  case (raised x m2)
  then show ?thesis by simp
next
  case (returned m2)
  then show ?thesis using assms truncate_last [of m2] by simp
qed

lemma append_message_second:
  assumes "1 \<le> max_history m" "conversation_history m \<noteq> []"
  shows "last (conversation_history m) \<in> set (conversation_history (snd (append_message r c e now m)))"
proof (cases rule: append_message_cases [of r c e now m])
  case (raised x m2)
  then show ?thesis using assms by simp
next
  case (returned m2)
  then show ?thesis using assms truncate_second [of m2 "conversation_history m"] by simp
qed

lemma add_message_second:
  assumes "1 \<le> max_history m" "conversation_history m \<noteq> []"
  shows "last (conversation_history m) \<in>
           set (conversation_history (fst (snd (add_message r c e now g m))))"
proof (cases rule: add_message_cases [of r c e now g m])
  case (same out g')
  then show ?thesis using assms by simp
next
  case (appended c' g')
  then show ?thesis using append_message_second [OF assms, of r c' e now] by simp
qed

lemma handle_conversation: "conversation (snd (handle env x w)) = conversation w"
  by (simp add: handle_def Let_def split: prod.splits sum.splits)

lemma record_topic_keeps:
  "conversation_history (record_topic r m) = conversation_history m \<and>
   max_history (record_topic r m) = max_history m"
  by (simp add: record_topic_def)

lemma add_user_message_last:
  assumes "1 \<le> max_history (conversation w)" "py_strip user_text \<noteq> []"
  shows "conversation_history (conversation (snd (add_user_message env user_text w))) \<noteq> [] \<and>
         last (conversation_history (conversation (snd (add_user_message env user_text w)))) =
           \<lparr>role = ''user'', content = user_text, timestamp = Some (t_user env),
            emotion = Some (analyze_sentiment user_text)\<rparr> \<and>
         max_history (conversation (snd (add_user_message env user_text w))) =
           max_history (conversation w)"
proof -
  let ?m = "set_mood user_text (conversation w)"
  have mh: "1 \<le> max_history ?m" using assms(1) by (simp add: set_mood_def)
  have ne: "conversation_history ?m @ [x] \<noteq> []" for x by simp
  have keep: "max_history (snd (append_message ''user'' user_text None (t_user env) ?m)) = max_history ?m"
    by (cases rule: append_message_cases [of "''user''" user_text None "t_user env" ?m])
       (simp_all add: truncate_keeps)
  obtain out m1 where ap: "append_message ''user'' user_text None (t_user env) ?m = (out, m1)"
    by (cases "append_message ''user'' user_text None (t_user env) ?m")
  have "conversation_history m1 \<noteq> [] \<and>
        last (conversation_history m1) =
           \<lparr>role = ''user'', content = user_text, timestamp = Some (t_user env),
            emotion = Some (analyze_sentiment user_text)\<rparr> \<and>
        max_history m1 = max_history (conversation w)"
    using append_message_last [OF mh, of "''user''" user_text None "t_user env"] keep ap
    by (simp add: set_mood_def emotion_or_def)
  moreover have "add_user_message env user_text w =
      (out, w\<lparr>conversation := m1, randomness := randomness w\<rparr>)"
    using ap by (simp add: add_user_message_def add_user_message_unfold [OF assms(2)])
  ultimately show ?thesis by simp
qed

lemma deliver_second:
  assumes "1 \<le> max_history (conversation w)" "conversation_history (conversation w) \<noteq> []"
  shows "last (conversation_history (conversation w)) \<in>
           set (conversation_history (conversation (snd (deliver env s raw w))))"
proof -
  obtain th ai where p: "parse_payload raw = (th, ai)" by (cases "parse_payload raw")
  let ?m = "record_topic ai (conversation w)"
  let ?g = "randomness w"
  have m: "1 \<le> max_history ?m" "conversation_history ?m \<noteq> []"
    "last (conversation_history ?m) = last (conversation_history (conversation w))"
    using assms by (simp_all add: record_topic_keeps)
  obtain out m' g' where a: "add_message ''assistant'' ai (Some s) (t_reply env) ?g ?m = (out, m', g')"
    by (cases "add_message ''assistant'' ai (Some s) (t_reply env) ?g ?m")
  have "last (conversation_history ?m) \<in> set (conversation_history m')"
    using add_message_second [OF m(1) m(2), of "''assistant''" ai "Some s" "t_reply env" ?g] a by simp
  then show ?thesis
    using p a m(3) by (cases out) (simp_all add: deliver_def Let_def)
qed

lemma try_block_keeps_user_message:
  assumes "1 \<le> max_history (conversation w)" "py_strip user_text \<noteq> []"
  shows "\<lparr>role = ''user'', content = user_text, timestamp = Some (t_user env),
            emotion = Some (analyze_sentiment user_text)\<rparr>
         \<in> set (conversation_history (conversation (snd (try_block env user_text w))))"
proof -
  obtain out w1 where u: "add_user_message env user_text w = (out, w1)"
    by (cases "add_user_message env user_text w")
  let ?msg = "\<lparr>role = ''user'', content = user_text, timestamp = Some (t_user env),
            emotion = Some (analyze_sentiment user_text)\<rparr>"
  have w1: "conversation_history (conversation w1) \<noteq> []"
    "last (conversation_history (conversation w1)) = ?msg"
    "1 \<le> max_history (conversation w1)"
    using add_user_message_last [OF assms, of env] u assms(1) by simp_all
  then have here: "?msg \<in> set (conversation_history (conversation w1))"
    by (metis last_in_set)
  have later: "?msg \<in> set (conversation_history (conversation (snd (deliver env s raw w1))))" for s raw
    using deliver_second [OF w1(3) w1(1), of env s raw] w1(2) by simp
  show ?thesis
    using u here later
    by (cases out) (simp_all add: try_block_def split: completion_result.splits)
qed

lemma get_response_keeps_user_message:
  assumes "1 \<le> max_history (conversation w)" "py_strip user_text \<noteq> []"
  shows "\<lparr>role = ''user'', content = user_text, timestamp = Some (t_user env),
            emotion = Some (analyze_sentiment user_text)\<rparr>
         \<in> set (conversation_history (conversation (snd (get_response env user_text w))))"
proof -
  obtain res w1 where t: "try_block env user_text w = (res, w1)"
    by (cases "try_block env user_text w")
  then show ?thesis
    using try_block_keeps_user_message [OF assms, of env]
    by (cases res) (simp_all add: get_response_def handle_conversation)
qed

subsection \<open>The mood of the turn\<close>














lemma get_response_conversation:
  "conversation (snd (get_response env user_text w)) =
   conversation (snd (try_block env user_text w))"
proof -
  obtain res w1 where t: "try_block env user_text w = (res, w1)"
    by (cases "try_block env user_text w")
  then show ?thesis
    by (cases res) (simp_all add: get_response_def handle_conversation)
qed




lemma happy_added:
  "add_user_message (service_env f) ''I am happy and it was amazing'' (fresh_world 15 g) =
     (Returns,
      \<lparr>conversation =
         (new_manager 15 Absent 0)\<lparr>conversation_history :=
            [system_message,
             \<lparr>role = ''user'', content = ''I am happy and it was amazing'',
              timestamp = Some 0, emotion = Some ''happy''\<rparr>],
            conversation_mood := ''happy''\<rparr>,
       randomness = g, thoughts_log = [], error_log = []\<rparr>)"
  by (simp add: add_user_message_def set_mood_def sentiment_happy service_env_def fresh_world_def
        run_defs)

text \<open>
  On a fresh conversation the text \<open>I am happy and it was amazing\<close> leaves the mood
  \<open>happy\<close>, also when the completion service raises.
\<close>

lemma happy_turn:
  "conversation_mood (conversation (snd (get_response (service_env (\<lambda>r. Throws APIError))
     ''I am happy and it was amazing'' (fresh_world 15 g)))) = ''happy''"
proof -
  have "try_block (service_env (\<lambda>r. Throws APIError)) ''I am happy and it was amazing''
      (fresh_world 15 g) =
     (Inl APIError,
      \<lparr>conversation =
         (new_manager 15 Absent 0)\<lparr>conversation_history :=
            [system_message,
             \<lparr>role = ''user'', content = ''I am happy and it was amazing'',
              timestamp = Some 0, emotion = Some ''happy''\<rparr>],
            conversation_mood := ''happy''\<rparr>,
       randomness = g, thoughts_log = [], error_log = []\<rparr>)"
    using happy_added [of "\<lambda>r. Throws APIError" g]
    by (simp add: try_block_def service_env_def)
  then show ?thesis
    by (simp add: get_response_conversation)
qed

subsection \<open>The apology paths\<close>

lemma py_strip_nonblank:
  assumes "x \<in> set s" "\<not> isspace x"
  shows "py_strip s \<noteq> []"
  using assms py_strip_empty [of s] by blast

lemma traits_fillers: "traits ''fillers'' = Inl KeyError"
  by (simp add: traits_def HUMAN_TRAITS_def)

lemma humanize_raises:
  assumes "py_strip text \<noteq> []" "shd (floats g) < 1 / 10"
  shows "fst (humanize_text text emo g) = Inl KeyError"
  using assms
  by (simp add: humanize_text_def add_filler_def random_random_def then_do_def traits_fillers)

lemma emotion_for_apology:
  assumes "key \<in> {''sad'', ''confused'', ''thinking''}"
  shows "\<exists>emo. get_random_emotion key g = (Inr emo, g\<lparr>picks := stl (picks g)\<rparr>)"
  using assms
  by (auto simp add: get_random_emotion_def traits_def HUMAN_TRAITS_def random_choice_def)

lemma except_clause_shape:
  obtains ty before key after tone where
    "except_clause x = (ty, before, key, after, tone)"
    "key \<in> {''sad'', ''confused'', ''thinking''}"
    "hd before \<in> {CHR ''I'', CHR ''H''}" "before \<noteq> []"
  by (cases x) (simp_all add: except_clause_def)

lemma handle_raises:
  assumes "shd (floats (randomness w)) < 1 / 10"
  shows "fst (handle env x w) = Inl KeyError"
proof -
  obtain ty before key after tone where c:
    "except_clause x = (ty, before, key, after, tone)"
    "key \<in> {''sad'', ''confused'', ''thinking''}"
    "hd before \<in> {CHR ''I'', CHR ''H''}" "before \<noteq> []"
    by (rule except_clause_shape)
  obtain emo where e:
    "get_random_emotion key (randomness w) = (Inr emo, (randomness w)\<lparr>picks := stl (picks (randomness w))\<rparr>)"
    using emotion_for_apology [OF c(2)] by blast
  let ?g = "(randomness w)\<lparr>picks := stl (picks (randomness w))\<rparr>"
  have "hd before \<in> set (before @ emo @ after)" using c(4) by simp
  moreover have "\<not> isspace (hd before)"
    using c(3) by (auto simp add: isspace_def whitespace_def)
  ultimately have nb: "py_strip (before @ emo @ after) \<noteq> []"
    by (rule py_strip_nonblank)
  have "shd (floats ?g) < 1 / 10" using assms by simp
  then have "fst (humanize_text (before @ emo @ after) tone ?g) = Inl KeyError"
    using nb humanize_raises by blast
  then obtain g1 where "humanize_text (before @ emo @ after) tone ?g = (Inl KeyError, g1)"
    by (cases "humanize_text (before @ emo @ after) tone ?g") simp
  then show ?thesis
    using c(1) e by (simp add: handle_def Let_def)
qed

lemma add_user_message_randomness:
  "randomness (snd (add_user_message env user_text w)) = randomness w"
  by (simp add: add_user_message_def add_message_def split: prod.splits)

text \<open>
  C4. The claim is that \<open>get_response\<close> returns an apology on every exception path and
  never lets an exception reach its caller. The apology is passed through
  \<open>humanize_text\<close>, which looks up \<open>HUMAN_TRAITS['fillers']\<close> when its first random float is
  below 0.1; \<open>HUMAN_TRAITS\<close> has no such key. So whenever the completion service raises
  and the next float of the generator is below 0.1, \<open>get_response\<close> raises \<open>KeyError\<close>.
\<close>

theorem apology_raises_key_error:
  assumes "shd (floats (randomness w)) < 1 / 10"
    and "completion_service env
           (build_request (conversation (snd (add_user_message env user_text w)))) = Throws x"
  shows "fst (get_response env user_text w) = Inl KeyError"
proof -
  obtain out w1 where u: "add_user_message env user_text w = (out, w1)"
    by (cases "add_user_message env user_text w")
  have g: "shd (floats (randomness w1)) < 1 / 10"
    using add_user_message_randomness [of env user_text w] u assms(1) by simp
  have "\<exists>y. try_block env user_text w = (Inl y, w1)"
    using u assms(2) by (cases out) (simp_all add: try_block_def)
  then obtain y where "try_block env user_text w = (Inl y, w1)" by blast
  then show ?thesis
    using handle_raises [OF g, of env y] by (simp add: get_response_def)
qed

theorem apology_raises_key_error_witness:
  "shd (floats (randomness (fresh_world 15 (steady (1 / 20))))) < 1 / 10 \<and>
   completion_service (service_env (\<lambda>r. Throws APIError))
     (build_request (conversation (snd (add_user_message (service_env (\<lambda>r. Throws APIError))
        ''Hello'' (fresh_world 15 (steady (1 / 20))))))) = Throws APIError \<and>
   fst (get_response (service_env (\<lambda>r. Throws APIError)) ''Hello''
          (fresh_world 15 (steady (1 / 20)))) = Inl KeyError"
proof -
  have h1: "shd (floats (randomness (fresh_world 15 (steady (1 / 20))))) < 1 / 10"
    by (simp add: fresh_world_def steady_def)
  have h2: "completion_service (service_env (\<lambda>r. Throws APIError))
     (build_request (conversation (snd (add_user_message (service_env (\<lambda>r. Throws APIError))
        ''Hello'' (fresh_world 15 (steady (1 / 20))))))) = Throws APIError"
    by (simp add: service_env_def)
  show ?thesis
    using h1 h2 apology_raises_key_error [OF h1 h2] by blast
qed

subsection \<open>The THOUGHTS/RESPONSE block\<close>

text \<open>
  With both markers in the text the block cannot raise \<open>IndexError\<close>; without both, the
  text is used as it is.
\<close>

lemma thoughts_of_found:
  assumes "contains ''[THOUGHTS:'' raw"
  shows "\<exists>t. thoughts_of raw = Inr t"
proof -
  obtain a b where "split_once ''[THOUGHTS:'' raw = Some (a, b)"
    using assms by (auto simp add: contains_def)
  then show ?thesis by (simp add: thoughts_of_def)
qed

lemma parse_payload_markers:
  assumes "contains ''[THOUGHTS:'' raw" "contains ''[RESPONSE:'' raw"
  shows "\<exists>t. thoughts_of raw = Inr t \<and>
             parse_payload raw = (if t \<noteq> [] then Some t else None, response_of raw)"
proof -
  obtain t where "thoughts_of raw = Inr t"
    using thoughts_of_found [OF assms(1)] by blast
  then show ?thesis using assms by (simp add: parse_payload_def)
qed

lemma parse_payload_unmarked:
  assumes "\<not> (contains ''[THOUGHTS:'' raw \<and> contains ''[RESPONSE:'' raw)"
  shows "parse_payload raw = (None, raw)"
  using assms by (simp only: parse_payload_def if_False)

lemmas eval_parse =
  parse_payload_def contains_def thoughts_of_def response_of_def py_strip_def isspace_def
  whitespace_def suffix_to_prefix

subsection \<open>The scenario of the marked payload\<close>

lemma hello_sentiment: "analyze_sentiment ''Hello'' = ''neutral''"
  by (simp add: analyze_sentiment_def pos_count_distinct neg_count_distinct eval_tokens)

lemma hello_added:
  "add_user_message (service_env f) ''Hello'' (fresh_world 15 g) = (Returns, after_hello g)"
  by (simp add: add_user_message_def set_mood_def hello_sentiment service_env_def fresh_world_def
        after_hello_def run_defs)

lemma parse_scenario:
  "parse_payload scenario_payload = (Some ''I should be concise'', ''Hello there'')"
  by (simp add: scenario_payload_def eval_parse)

lemma scenario_nonblank: "py_strip scenario_payload \<noteq> []"
  by (simp add: scenario_payload_def py_strip_def isspace_def whitespace_def)

lemma try_block_scenario:
  "try_block scenario_env ''Hello'' (fresh_world 15 g) =
     deliver scenario_env ''neutral'' scenario_payload (after_hello g)"
proof -
  have "completion_service scenario_env r = Payload scenario_payload" for r
    by (simp add: scenario_env_def service_env_def)
  then show ?thesis
    using hello_added [of "\<lambda>r. Payload scenario_payload" g]
    by (simp add: try_block_def scenario_env_def [symmetric] scenario_nonblank hello_sentiment)
qed

lemmas eval_humanize =
  humanize_text_def add_filler_def add_thinking_def add_acknowledgment_def add_emotion_def
  random_random_def random_choice_def then_do_def traits_def HUMAN_TRAITS_def
  get_random_emotion_def

lemma hello_there_nonblank: "py_strip ''Hello there'' \<noteq> []"
  by (simp add: py_strip_def isspace_def whitespace_def)

lemma deliver_scenario_raises:
  "deliver scenario_env ''neutral'' scenario_payload (after_hello (first_then (1 / 20) (1 / 2))) =
     (Inl KeyError,
      (after_hello (steady (1 / 2)))\<lparr>thoughts_log := [''I should be concise'']\<rparr>)"
  by (simp add: deliver_def parse_scenario log_thoughts_def record_topic_def add_message_def
        hello_there_nonblank eval_humanize scenario_env_def service_env_def after_hello_def
        new_manager_def first_then_def steady_def Let_def)

lemma apology_nonblank:
  "py_strip ''Hmm, something unexpected happened (KeyError). angry Let's try that again.'' \<noteq> []"
  by (simp add: py_strip_def isspace_def whitespace_def)

lemma handle_scenario:
  "fst (handle scenario_env KeyError
          ((after_hello (steady (1 / 2)))\<lparr>thoughts_log := [''I should be concise'']\<rparr>)) =
     Inr ''Hmm, something unexpected happened (KeyError). angry Let's try that again.'' \<and>
   thoughts_log (snd (handle scenario_env KeyError
          ((after_hello (steady (1 / 2)))\<lparr>thoughts_log := [''I should be concise'']\<rparr>))) =
     [''I should be concise'']"
proof -
  have e: "get_random_emotion ''thinking'' (steady (1 / 2)) = (Inr ''angry'', steady (1 / 2))"
    by (simp add: get_random_emotion_def traits_def HUMAN_TRAITS_def random_choice_def steady_def)
  have h: "humanize_text
      ''Hmm, something unexpected happened (KeyError). angry Let's try that again.''
      ''thinking'' (steady (1 / 2)) =
      (Inr ''Hmm, something unexpected happened (KeyError). angry Let's try that again.'',
       steady (1 / 2))"
    by (simp add: humanize_text_def apology_nonblank add_filler_def add_thinking_def
          add_acknowledgment_def add_emotion_def random_random_def then_do_def steady_def)
  have r: "randomness ((after_hello (steady (1 / 2)))\<lparr>thoughts_log := [''I should be concise'']\<rparr>)
      = steady (1 / 2)"
    by (simp add: after_hello_def)
  show ?thesis
    by (simp add: handle_def except_clause_def type_name_def r e h Let_def)
qed

text \<open>
  C9. The claim is that for a payload with both markers \<open>get_response\<close> returns the text after
  the RESPONSE marker. With the payload of the scenario and 0.05 as the first random float,
  the thought is logged, but appending the assistant message raises \<open>KeyError\<close> in
  \<open>humanize_text\<close> (the missing key \<open>fillers\<close>), and \<open>get_response\<close> returns the apology
  for an unexpected error instead of \<open>Hello there\<close>.
\<close>

theorem scenario_returns_apology:
  "fst (get_response scenario_env ''Hello'' (fresh_world 15 (first_then (1 / 20) (1 / 2))))
     = Inr ''Hmm, something unexpected happened (KeyError). angry Let's try that again.'' \<and>
   thoughts_log (snd (get_response scenario_env ''Hello''
     (fresh_world 15 (first_then (1 / 20) (1 / 2)))))
     = [''I should be concise''] \<and>
   parse_payload scenario_payload = (Some ''I should be concise'', ''Hello there'')"
  using handle_scenario
  by (simp add: get_response_def try_block_scenario deliver_scenario_raises parse_scenario)

text \<open>When no float is below the threshold of a decoration, the scenario is as the claim
  says.\<close>

lemma deliver_scenario_returns:
  "fst (deliver scenario_env ''neutral'' scenario_payload (after_hello (steady (1 / 2)))) =
     Inr ''Hello there'' \<and>
   thoughts_log (snd (deliver scenario_env ''neutral'' scenario_payload
     (after_hello (steady (1 / 2))))) = [''I should be concise'']"
  by (simp add: deliver_def parse_scenario log_thoughts_def record_topic_def add_message_def
        hello_there_nonblank eval_humanize scenario_env_def service_env_def after_hello_def
        new_manager_def steady_def Let_def py_split_def isspace_def whitespace_def
        append_message_def update_conversation_meta_def truncate_history_def hour_def
        emotion_or_def initialize_conversation_def)

lemma scenario_undecorated:
  "fst (get_response scenario_env ''Hello'' (fresh_world 15 (steady (1 / 2)))) = Inr ''Hello there'' \<and>
   thoughts_log (snd (get_response scenario_env ''Hello'' (fresh_world 15 (steady (1 / 2)))))
     = [''I should be concise'']"
proof -
  obtain w1 where d: "deliver scenario_env ''neutral'' scenario_payload
      (after_hello (steady (1 / 2))) = (Inr ''Hello there'', w1)"
    using deliver_scenario_returns
    by (cases "deliver scenario_env ''neutral'' scenario_payload (after_hello (steady (1 / 2)))")
       simp
  then have "thoughts_log w1 = [''I should be concise'']"
    using deliver_scenario_returns by simp
  then show ?thesis
    using d by (simp add: get_response_def try_block_scenario)
qed

end
